theory Spec2Isabelle
  imports
    Complex_Main
    "HOL-Library.AList"
    "HOL-Library.Signed_Division"
    "HOL-Library.Sublist"
begin

section \<open>Quota overview: the terminal report and the dashboard of \<open>src/cli/quota.js\<close>\<close>

text \<open>
  Conventions of the embedding.
  \<^item> A JavaScript number that holds a quota fraction is a \<open>real\<close>; a number that holds
    milliseconds, a percentage or a count is an \<open>int\<close> or a \<open>nat\<close>. Rounding errors of
    IEEE doubles are not modelled.
  \<^item> \<open>null\<close> is \<open>None\<close>. The fraction of a quota is a number or \<open>null\<close>, as the
    data model has it; a field that is left out (\<open>undefined\<close>) is not modelled apart from
    \<open>null\<close>.
  \<^item> A plain object used as a dictionary is an association list in the enumeration order
    of \<open>Object.keys\<close> (insertion order for keys that are not array indices); reading a key is
    \<open>map_of\<close>, assigning one is \<open>AList.update\<close>, which overwrites in place or appends. Only own
    properties are modelled.
  \<^item> A reset time is the number of milliseconds that \<open>new Date(resetTime).getTime()\<close> yields,
    \<open>None\<close> when the field is absent (or otherwise falsy).
  \<^item> \<open>Date.now()\<close> is a parameter \<open>now\<close>, one instant for one call of a function.
\<close>

subsection \<open>Numbers and strings\<close>

type_synonym 'v js_object = "(string \<times> 'v) list"

definition digit_char :: "nat \<Rightarrow> char" where
  "digit_char d = ''0123456789'' ! d"

text \<open>Decimal digits of a natural number; the string JavaScript builds when an integer is
  concatenated to a string.\<close>

function showNat :: "nat \<Rightarrow> string" where
  "showNat n = (if n < 10 then [digit_char n] else showNat (n div 10) @ [digit_char (n mod 10)])"
  by pat_completeness auto
termination
  by (relation "measure id") auto

declare showNat.simps [simp del]

definition showInt :: "int \<Rightarrow> string" where
  "showInt i = (if i < 0 then CHR ''-'' # showNat (nat (- i)) else showNat (nat i))"

text \<open>\<open>Math.round\<close>: the nearest integer, a half rounded up.\<close>

definition Math_round :: "real \<Rightarrow> int" where
  "Math_round x = \<lfloor>x + 1 / 2\<rfloor>"

text \<open>\<open>s.indexOf(pat)\<close>: the first position where \<open>pat\<close> occurs in \<open>s\<close>, or \<open>-1\<close>.\<close>

fun indexOf_from :: "nat \<Rightarrow> string \<Rightarrow> string \<Rightarrow> int" where
  "indexOf_from i [] pat = (if pat = [] then int i else - 1)"
| "indexOf_from i (c # cs) pat =
     (if prefix pat (c # cs) then int i else indexOf_from (Suc i) cs pat)"

definition indexOf :: "string \<Rightarrow> string \<Rightarrow> int" where
  "indexOf s pat = indexOf_from 0 s pat"

text \<open>\<open>s.split(sep)\<close> for a separator of one character.\<close>

fun split_on :: "char \<Rightarrow> string \<Rightarrow> string list" where
  "split_on sep [] = [[]]"
| "split_on sep (c # cs) =
     (if c = sep then [] # split_on sep cs
      else (case split_on sep cs of
              [] \<Rightarrow> [[c]]
            | p # ps \<Rightarrow> (c # p) # ps))"

text \<open>An ANSI colour sequence \<open>\x1b[<code>m\<close>.\<close>

definition ansi :: "string \<Rightarrow> string" where
  "ansi code = CHR 0x1B # CHR ''['' # code @ ''m''"

subsection \<open>Data model\<close>

record QuotaInfo =
  remainingFraction :: "real option"
  resetTime :: "int option"

subsection \<open>Terminal report (\<open>formatPercent\<close>, the averages of \<open>main\<close>)\<close>

definition formatPercent :: "real option \<Rightarrow> string" where
  "formatPercent fraction =
     (case fraction of
        None \<Rightarrow> ansi ''90'' @ ''N/A'' @ ansi ''0''
      | Some f \<Rightarrow>
          let pct = Math_round (f * 100) in
          if pct \<ge> 50 then ansi ''32'' @ showInt pct @ ''%'' @ ansi ''0''
          else if pct \<ge> 20 then ansi ''33'' @ showInt pct @ ''%'' @ ansi ''0''
          else ansi ''31'' @ showInt pct @ ''%'' @ ansi ''0'')"

text \<open>What the \<open>try\<close> block of \<open>main\<close> obtains for one account: the quotas of the account, or
  the message of the exception that \<open>getToken\<close> or \<open>getModelQuotas\<close> raised.\<close>

datatype fetch_result = FetchOk "QuotaInfo js_object" | FetchError string

record totals =
  sum_t :: real
  count_t :: nat

text \<open>The body of the loop over \<open>Object.entries(quotas)\<close>: an entry of \<open>modelTotals\<close> is
  created, and added to, under the test \<open>info.remainingFraction !== null\<close>. The creation
  \<open>{ sum: 0, count: 0 }\<close> and the two additions are one update here.\<close>

definition accumulate_entry :: "totals js_object \<Rightarrow> string \<times> QuotaInfo \<Rightarrow> totals js_object" where
  "accumulate_entry modelTotals entry =
     (case entry of (modelId, info) \<Rightarrow>
        (case remainingFraction info of
           None \<Rightarrow> modelTotals
         | Some f \<Rightarrow>
             let t = (case map_of modelTotals modelId of
                        None \<Rightarrow> \<lparr>sum_t = 0, count_t = 0\<rparr>
                      | Some t0 \<Rightarrow> t0)
             in AList.update modelId \<lparr>sum_t = sum_t t + f, count_t = count_t t + 1\<rparr> modelTotals))"

definition accumulate_account :: "totals js_object \<Rightarrow> fetch_result \<Rightarrow> totals js_object" where
  "accumulate_account modelTotals r =
     (case r of
        FetchOk quotas \<Rightarrow> foldl accumulate_entry modelTotals quotas
      | FetchError msg \<Rightarrow> modelTotals)"

definition modelTotals_of :: "fetch_result list \<Rightarrow> totals js_object" where
  "modelTotals_of results = foldl accumulate_account [] results"

definition average_of :: "totals \<Rightarrow> real option" where
  "average_of t = (if count_t t > 0 then Some (sum_t t / real (count_t t)) else None)"

definition modelAverages :: "fetch_result list \<Rightarrow> (real option) js_object" where
  "modelAverages results = map (\<lambda>(modelId, t). (modelId, average_of t)) (modelTotals_of results)"

definition overallAverage :: "(real option) js_object \<Rightarrow> real option" where
  "overallAverage averages =
     (let avgValues = List.map_filter snd averages
      in if length avgValues > 0 then Some (foldl (+) 0 avgValues / real (length avgValues))
         else None)"

subsection \<open>Dashboard utilities (\<open>Utils\<close>)\<close>

definition formatDuration :: "int \<Rightarrow> string" where
  "formatDuration ms =
     (if ms \<le> 0 then ''now''
      else
        let seconds = ms div 1000;
            minutes = seconds div 60;
            hours = minutes div 60;
            days = hours div 24
        in if days > 0 then showInt days @ ''d '' @ showInt (hours smod 24) @ ''h''
           else if hours > 0 then showInt hours @ ''h '' @ showInt (minutes smod 60) @ ''m''
           else if minutes > 0 then showInt minutes @ ''m '' @ showInt (seconds smod 60) @ ''s''
           else showInt seconds @ ''s'')"

definition maskEmail :: "string option \<Rightarrow> string" where
  "maskEmail email =
     (case email of
        None \<Rightarrow> ''''
      | Some e \<Rightarrow>
          if e = '''' then ''''
          else
            let parts = split_on CHR ''@'' e in
            if length parts \<noteq> 2 then e
            else
              let localPart = parts ! 0;
                  domain = parts ! 1;
                  maskedLocal =
                    (if length localPart > 4 then take 4 localPart @ ''***''
                     else take 2 localPart @ ''***'')
              in maskedLocal @ ''@'' @ domain)"

definition getModelFamily :: "string \<Rightarrow> string" where
  "getModelFamily modelId =
     (if modelId = '''' then ''unknown''
      else if indexOf modelId ''claude'' \<noteq> - 1 then ''claude''
      else if indexOf modelId ''gemini'' \<noteq> - 1 then ''gemini''
      else ''unknown'')"

subsection \<open>Dashboard aggregation (\<open>Render.globalQuota\<close>)\<close>

text \<open>One element of \<open>accountLimits.accounts\<close>. A model of \<open>limits\<close> may be mapped to
  \<open>null\<close>, which the loop skips (\<open>if (!limit) return\<close>).\<close>

record account_limits =
  email :: string
  status :: string
  limits :: "(QuotaInfo option) js_object option"

text \<open>The entries of \<open>claudePerAccount\<close> and \<open>geminiPerAccount\<close>, keyed by the email.\<close>

record per_account =
  sum_a :: real
  count_a :: nat
  soonestReset :: "int option"

record reset_entry =
  time :: int
  model :: string

record quota_acc =
  claudePerAccount :: "per_account js_object"
  geminiPerAccount :: "per_account js_object"
  allResets :: "reset_entry list"

text \<open>The test \<open>!soonest || rt < soonest\<close> on a number that may be \<open>null\<close>: the number 0
  is falsy as well.\<close>

definition sooner :: "int \<Rightarrow> int option \<Rightarrow> bool" where
  "sooner rt soonest = (case soonest of None \<Rightarrow> True | Some s \<Rightarrow> s = 0 \<or> rt < s)"

text \<open>The block that both family branches share: create the entry of the email when it is
  missing, add the fraction, count the model, keep the soonest reset.\<close>

definition track :: "string \<Rightarrow> real \<Rightarrow> int option \<Rightarrow> per_account js_object \<Rightarrow> per_account js_object" where
  "track em fraction rtime perAccount =
     (let e0 = (case map_of perAccount em of
                  None \<Rightarrow> \<lparr>sum_a = 0, count_a = 0, soonestReset = None\<rparr>
                | Some e \<Rightarrow> e);
          e1 = e0\<lparr>sum_a := sum_a e0 + fraction, count_a := count_a e0 + 1\<rparr>;
          e2 = (case rtime of
                  None \<Rightarrow> e1
                | Some rt \<Rightarrow> if sooner rt (soonestReset e1) then e1\<lparr>soonestReset := Some rt\<rparr> else e1)
      in AList.update em e2 perAccount)"

text \<open>The callback of \<open>Object.keys(acc.limits).forEach\<close>.\<close>

definition process_model :: "string \<Rightarrow> quota_acc \<Rightarrow> string \<times> QuotaInfo option \<Rightarrow> quota_acc" where
  "process_model em acc entry =
     (case entry of (modelId, limit) \<Rightarrow>
        (case limit of
           None \<Rightarrow> acc
         | Some l \<Rightarrow>
             let fraction = (case remainingFraction l of None \<Rightarrow> 0 | Some f \<Rightarrow> f);
                 rtime = resetTime l;
                 family = getModelFamily modelId;
                 acc1 =
                   (if family = ''claude''
                    then acc\<lparr>claudePerAccount := track em fraction rtime (claudePerAccount acc)\<rparr>
                    else if family = ''gemini''
                    then acc\<lparr>geminiPerAccount := track em fraction rtime (geminiPerAccount acc)\<rparr>
                    else acc)
             in (case rtime of
                   None \<Rightarrow> acc1
                 | Some rt \<Rightarrow>
                     if fraction = 0
                     then acc1\<lparr>allResets := allResets acc1 @ [\<lparr>time = rt, model = modelId\<rparr>]\<rparr>
                     else acc1)))"

text \<open>The callback of \<open>accountLimits.accounts.forEach\<close>, with its two early returns.\<close>

definition process_account :: "quota_acc \<Rightarrow> account_limits \<Rightarrow> quota_acc" where
  "process_account acc a =
     (if status a \<noteq> ''ok'' \<and> status a \<noteq> ''rate-limited'' then acc
      else (case limits a of
              None \<Rightarrow> acc
            | Some ls \<Rightarrow> foldl (process_model (email a)) acc ls))"

definition collect :: "account_limits list \<Rightarrow> quota_acc" where
  "collect accounts =
     foldl process_account \<lparr>claudePerAccount = [], geminiPerAccount = [], allResets = []\<rparr> accounts"

text \<open>The average of the per-account averages of one family, and the soonest reset among the
  accounts; \<open>(0, None)\<close> when no account has a model of the family.\<close>

definition family_step :: "real \<times> int option \<Rightarrow> string \<times> per_account \<Rightarrow> real \<times> int option" where
  "family_step tot entry =
     (case tot of (claudeTotal, soonest) \<Rightarrow>
        (case entry of (em, acc) \<Rightarrow>
           let accAvg = sum_a acc / real (count_a acc)
           in (claudeTotal + accAvg,
               (case soonestReset acc of
                  None \<Rightarrow> soonest
                | Some r \<Rightarrow> if r \<noteq> 0 \<and> sooner r soonest then Some r else soonest))))"

definition family_average :: "per_account js_object \<Rightarrow> real \<times> int option" where
  "family_average perAccount =
     (if length perAccount > 0
      then (case foldl family_step (0, None) perAccount of
              (claudeTotal, soonest) \<Rightarrow> (claudeTotal / real (length perAccount), soonest))
      else (0, None))"

text \<open>The loop that finds the next reset among \<open>allResets\<close>.\<close>

definition next_step :: "int \<Rightarrow> reset_entry option \<Rightarrow> reset_entry \<Rightarrow> reset_entry option" where
  "next_step now nextReset r =
     (if time r > now \<and> (case nextReset of None \<Rightarrow> True | Some n \<Rightarrow> time r < time n)
      then Some r else nextReset)"

definition find_next_reset :: "int \<Rightarrow> reset_entry list \<Rightarrow> reset_entry option" where
  "find_next_reset now resets = foldl (next_step now) None resets"

text \<open>The values that \<open>Render.globalQuota\<close> computes before it writes them to the page.\<close>

record global_quota =
  claudeAccounts :: "string list"
  claudeAvgFraction :: real
  claudeSoonestReset :: "int option"
  geminiAccounts :: "string list"
  geminiAvgFraction :: real
  geminiSoonestReset :: "int option"
  nextReset :: "reset_entry option"

definition globalQuota :: "int \<Rightarrow> account_limits list \<Rightarrow> global_quota" where
  "globalQuota now accounts =
     (let acc = collect accounts;
          c = family_average (claudePerAccount acc);
          g = family_average (geminiPerAccount acc)
      in \<lparr>claudeAccounts = map fst (claudePerAccount acc),
          claudeAvgFraction = fst c,
          claudeSoonestReset = snd c,
          geminiAccounts = map fst (geminiPerAccount acc),
          geminiAvgFraction = fst g,
          geminiSoonestReset = snd g,
          nextReset = find_next_reset now (allResets acc)\<rparr>)"

subsection \<open>Dashboard state, the API client and \<open>refresh\<close>\<close>

text \<open>The payloads of the two endpoints. Of the health payload only the fields that the
  modelled functions read are kept.\<close>

record health_snapshot =
  latencyMs :: int
  count_total :: nat
  count_available :: nat
  count_rateLimited :: nat
  count_invalid :: nat

record limits_snapshot =
  models :: "string list"
  accounts :: "account_limits list"

text \<open>The object \<open>state\<close>. A timer is the handle that \<open>setInterval\<close> returned.\<close>

record state =
  health :: "health_snapshot option"
  accountLimits :: "limits_snapshot option"
  lastUpdated :: "int option"
  autoRefresh :: bool
  refreshInterval :: int
  refreshTimer :: "nat option"
  countdownTimer :: "nat option"
  filter_s :: string
  searchQuery :: string
  expandedAccounts :: "string set"
  isLoading :: bool

definition initial_state :: state where
  "initial_state =
     \<lparr>health = None, accountLimits = None, lastUpdated = None, autoRefresh = True,
      refreshInterval = 30000, refreshTimer = None, countdownTimer = None, filter_s = ''all'',
      searchQuery = [], expandedAccounts = {}, isLoading = False\<rparr>"

text \<open>The parts of the page that \<open>Render.loading\<close>, \<open>Render.error\<close> and
  \<open>Render.serverStatus\<close> write.\<close>

record elements =
  serverStatus_text :: string
  serverStatus_class :: string
  errorMessage_text :: string
  errorBanner_hidden :: bool
  manualRefreshBtn_loading :: bool
  manualRefreshBtn_disabled :: bool

text \<open>The dashboard: the state, the page, and the number of calls of \<open>refresh\<close> that are
  suspended at their \<open>await\<close>, each with one pair of fetches issued.\<close>

record dashboard =
  state :: state
  elements :: elements
  in_flight :: nat

text \<open>A settled promise.\<close>

datatype 'a settled = Fulfilled 'a | Rejected string

text \<open>What \<open>fetch\<close> produced: a network failure, or a response with its status and the
  outcome of \<open>response.json()\<close>.\<close>

datatype 'a http = FetchFailed string | HttpResponse int "'a settled"

definition response_ok :: "int \<Rightarrow> bool" where
  "response_ok code = (200 \<le> code \<and> code \<le> 299)"

definition API_getHealth :: "health_snapshot http \<Rightarrow> health_snapshot settled" where
  "API_getHealth r =
     (case r of
        FetchFailed msg \<Rightarrow> Rejected msg
      | HttpResponse code body \<Rightarrow>
          if \<not> response_ok code then Rejected (''Health check failed: '' @ showInt code)
          else body)"

definition API_getAccountLimits :: "limits_snapshot http \<Rightarrow> limits_snapshot settled" where
  "API_getAccountLimits r =
     (case r of
        FetchFailed msg \<Rightarrow> Rejected msg
      | HttpResponse code body \<Rightarrow>
          if \<not> response_ok code then Rejected (''Account limits failed: '' @ showInt code)
          else body)"

text \<open>\<open>Promise.all\<close> of two promises: fulfilled with both values, or rejected with the reason
  of the promise that rejects first; when both reject, the flag says that the second did so
  first.\<close>

definition Promise_all :: "bool \<Rightarrow> 'a settled \<Rightarrow> 'b settled \<Rightarrow> ('a \<times> 'b) settled" where
  "Promise_all secondFirst p q =
     (case p of
        Fulfilled x \<Rightarrow> (case q of Fulfilled y \<Rightarrow> Fulfilled (x, y) | Rejected e \<Rightarrow> Rejected e)
      | Rejected e1 \<Rightarrow>
          (case q of
             Fulfilled y \<Rightarrow> Rejected e1
           | Rejected e2 \<Rightarrow> Rejected (if secondFirst then e2 else e1)))"

text \<open>\<open>Render.serverStatus(isOk, latencyMs)\<close>; the \<open>catch\<close> block passes no latency.\<close>

definition Render_serverStatus :: "bool \<Rightarrow> int option \<Rightarrow> dashboard \<Rightarrow> dashboard" where
  "Render_serverStatus isOk latency d =
     (if isOk
      then d\<lparr>elements := (elements d)
               \<lparr>serverStatus_text :=
                  ''OK ('' @ (case latency of None \<Rightarrow> ''undefined'' | Some ms \<Rightarrow> showInt ms) @ ''ms)'',
                serverStatus_class := ''status-badge ok''\<rparr>\<rparr>
      else d\<lparr>elements := (elements d)
               \<lparr>serverStatus_text := ''Error'', serverStatus_class := ''status-badge error''\<rparr>\<rparr>)"

definition Render_error :: "string option \<Rightarrow> dashboard \<Rightarrow> dashboard" where
  "Render_error message d =
     (case message of
        None \<Rightarrow> d\<lparr>elements := (elements d)\<lparr>errorBanner_hidden := True\<rparr>\<rparr>
      | Some m \<Rightarrow>
          if m \<noteq> []
          then d\<lparr>elements := (elements d)\<lparr>errorMessage_text := m, errorBanner_hidden := False\<rparr>\<rparr>
          else d\<lparr>elements := (elements d)\<lparr>errorBanner_hidden := True\<rparr>\<rparr>)"

definition Render_loading :: "bool \<Rightarrow> dashboard \<Rightarrow> dashboard" where
  "Render_loading loading d =
     (let d1 = d\<lparr>state := (state d)\<lparr>isLoading := loading\<rparr>\<rparr>
      in if loading
         then d1\<lparr>elements := (elements d1)
                  \<lparr>manualRefreshBtn_loading := True, manualRefreshBtn_disabled := True,
                   serverStatus_text := ''Loading...'',
                   serverStatus_class := ''status-badge loading''\<rparr>\<rparr>
         else d1\<lparr>elements := (elements d1)
                  \<lparr>manualRefreshBtn_loading := False, manualRefreshBtn_disabled := False\<rparr>\<rparr>)"

text \<open>\<open>refresh\<close> up to its \<open>await\<close>: the guard, the loading indicator, the banner hidden,
  the pair of fetches issued.\<close>

definition refresh_begin :: "dashboard \<Rightarrow> dashboard" where
  "refresh_begin d =
     (if isLoading (state d) then d
      else (Render_error None (Render_loading True d))\<lparr>in_flight := in_flight d + 1\<rparr>)"

text \<open>The \<open>catch\<close> block.\<close>

definition refresh_catch :: "string \<Rightarrow> dashboard \<Rightarrow> dashboard" where
  "refresh_catch msg d =
     Render_error (Some (''Failed to connect: '' @ msg)) (Render_serverStatus False None d)"

text \<open>\<open>refresh\<close> from its \<open>await\<close> on, when \<open>Promise.all\<close> has settled with \<open>results\<close> at
  the instant \<open>now\<close>. \<open>renderError\<close> is the message of an exception that a \<open>Render\<close> call
  raises on the new snapshot (a payload of an unexpected shape), \<open>None\<close> when rendering
  succeeds; the regions of the page that the other \<open>Render\<close> calls write are not modelled.\<close>

definition refresh_resume ::
    "int \<Rightarrow> string option \<Rightarrow> (health_snapshot \<times> limits_snapshot) settled \<Rightarrow> dashboard \<Rightarrow> dashboard" where
  "refresh_resume now renderError results d =
     (let d1 =
        (case results of
           Fulfilled (h, al) \<Rightarrow>
             let d2 = d\<lparr>state := (state d)
                         \<lparr>health := Some h, accountLimits := Some al, lastUpdated := Some now\<rparr>\<rparr>
             in (case renderError of
                   None \<Rightarrow> Render_serverStatus True (Some (latencyMs h)) d2
                 | Some msg \<Rightarrow> refresh_catch msg d2)
         | Rejected msg \<Rightarrow> refresh_catch msg d)
      in (Render_loading False d1)\<lparr>in_flight := in_flight d - 1\<rparr>)"

text \<open>One whole call of \<open>refresh\<close> with nothing else running between its two halves.\<close>

definition refresh ::
    "int \<Rightarrow> string option \<Rightarrow> (health_snapshot \<times> limits_snapshot) settled \<Rightarrow> dashboard \<Rightarrow> dashboard" where
  "refresh now renderError results d =
     (if isLoading (state d) then d else refresh_resume now renderError results (refresh_begin d))"

definition stopAutoRefresh :: "dashboard \<Rightarrow> dashboard" where
  "stopAutoRefresh d =
     (case refreshTimer (state d) of
        Some h \<Rightarrow> d\<lparr>state := (state d)\<lparr>refreshTimer := None\<rparr>\<rparr>
      | None \<Rightarrow> d)"

definition startAutoRefresh :: "nat \<Rightarrow> dashboard \<Rightarrow> dashboard" where
  "startAutoRefresh handle d =
     (let d1 = stopAutoRefresh d in d1\<lparr>state := (state d1)\<lparr>refreshTimer := Some handle\<rparr>\<rparr>)"

text \<open>The handlers of \<open>Events\<close>; a handler that starts a timer takes the new handle.\<close>

definition toggleAutoRefresh :: "bool \<Rightarrow> nat \<Rightarrow> dashboard \<Rightarrow> dashboard" where
  "toggleAutoRefresh checked handle d =
     (let d1 = d\<lparr>state := (state d)\<lparr>autoRefresh := checked\<rparr>\<rparr>
      in if autoRefresh (state d1) then startAutoRefresh handle d1 else stopAutoRefresh d1)"

definition changeRefreshInterval :: "int \<Rightarrow> nat \<Rightarrow> dashboard \<Rightarrow> dashboard" where
  "changeRefreshInterval interval handle d =
     (let d1 = d\<lparr>state := (state d)\<lparr>refreshInterval := interval\<rparr>\<rparr>
      in if autoRefresh (state d1) then startAutoRefresh handle (stopAutoRefresh d1) else d1)"

definition filterByModel :: "string \<Rightarrow> dashboard \<Rightarrow> dashboard" where
  "filterByModel f d = d\<lparr>state := (state d)\<lparr>filter_s := f\<rparr>\<rparr>"

text \<open>\<open>query\<close> is the trimmed value of the search box.\<close>

definition searchAccounts :: "string \<Rightarrow> dashboard \<Rightarrow> dashboard" where
  "searchAccounts query d = d\<lparr>state := (state d)\<lparr>searchQuery := query\<rparr>\<rparr>"

definition toggleAccount :: "string \<Rightarrow> dashboard \<Rightarrow> dashboard" where
  "toggleAccount em d =
     (if em \<in> expandedAccounts (state d)
      then d\<lparr>state := (state d)\<lparr>expandedAccounts := expandedAccounts (state d) - {em}\<rparr>\<rparr>
      else d\<lparr>state := (state d)\<lparr>expandedAccounts := insert em (expandedAccounts (state d))\<rparr>\<rparr>)"

definition retryAfterError :: "dashboard \<Rightarrow> dashboard" where
  "retryAfterError d = refresh_begin (Render_error None d)"

text \<open>\<open>init\<close>: the first refresh, the refresh timer, the countdown timer.\<close>

definition init :: "nat \<Rightarrow> nat \<Rightarrow> elements \<Rightarrow> dashboard" where
  "init refreshHandle countdownHandle page =
     (let d0 = \<lparr>state = initial_state, elements = page, in_flight = 0\<rparr>;
          d1 = refresh_begin d0;
          d2 = (if autoRefresh (state d1) then startAutoRefresh refreshHandle d1 else d1)
      in d2\<lparr>state := (state d2)\<lparr>countdownTimer := Some countdownHandle\<rparr>\<rparr>)"

text \<open>What the event loop can run next. The settling of the fetches is possible only when a
  call of \<open>refresh\<close> is suspended; every other event is taken as possible at any time.\<close>

datatype event =
    ManualRefresh
  | TimerRefresh
  | RetryAfterError
  | Settled int "string option" "(health_snapshot \<times> limits_snapshot) settled"
  | FilterByModel string
  | SearchAccounts string
  | ToggleAccount string
  | ToggleAutoRefresh bool nat
  | ChangeRefreshInterval int nat

fun fire :: "event \<Rightarrow> dashboard \<Rightarrow> dashboard" where
  "fire ManualRefresh d = refresh_begin d"
| "fire TimerRefresh d = refresh_begin d"
| "fire RetryAfterError d = retryAfterError d"
| "fire (Settled now renderError results) d = refresh_resume now renderError results d"
| "fire (FilterByModel f) d = filterByModel f d"
| "fire (SearchAccounts query) d = searchAccounts query d"
| "fire (ToggleAccount em) d = toggleAccount em d"
| "fire (ToggleAutoRefresh checked handle) d = toggleAutoRefresh checked handle d"
| "fire (ChangeRefreshInterval interval handle) d = changeRefreshInterval interval handle d"

fun enabled :: "event \<Rightarrow> dashboard \<Rightarrow> bool" where
  "enabled (Settled now renderError results) d = (in_flight d > 0)"
| "enabled e d = True"

inductive reachable :: "dashboard \<Rightarrow> bool" where
  start: "reachable (init refreshHandle countdownHandle page)"
| step: "reachable d \<Longrightarrow> enabled e d \<Longrightarrow> reachable (fire e d)"


subsection \<open>The aggregates as the specification words them\<close>

text \<open>The non-null fractions that the fetched accounts report for one model, in the order of
  the accounts and of their entries.\<close>

definition quota_contributions :: "string \<Rightarrow> QuotaInfo js_object \<Rightarrow> real list" where
  "quota_contributions modelId quotas =
     List.map_filter (\<lambda>(m, info). if m = modelId then remainingFraction info else None) quotas"

definition contributions :: "string \<Rightarrow> fetch_result list \<Rightarrow> real list" where
  "contributions modelId results =
     concat (map (\<lambda>r. case r of FetchOk quotas \<Rightarrow> quota_contributions modelId quotas
                              | FetchError msg \<Rightarrow> []) results)"

text \<open>An account that the dashboard aggregates, and its quotas.\<close>

definition usable :: "account_limits \<Rightarrow> bool" where
  "usable a = (status a = ''ok'' \<or> status a = ''rate-limited'')"

definition quotas_of :: "account_limits \<Rightarrow> (string \<times> QuotaInfo) list" where
  "quotas_of a = (case limits a of None \<Rightarrow> [] | Some ls \<Rightarrow> [(m, l). (m, Some l) \<leftarrow> ls])"

text \<open>The family gauge: a null fraction counts as 0, the values of the family's models are
  averaged within an account, and the accounts that have such models are averaged.\<close>

definition null_as_zero :: "QuotaInfo \<Rightarrow> real" where
  "null_as_zero l = (case remainingFraction l of None \<Rightarrow> 0 | Some f \<Rightarrow> f)"

definition family_quotas :: "string \<Rightarrow> account_limits \<Rightarrow> QuotaInfo list" where
  "family_quotas family a = [l. (m, l) \<leftarrow> quotas_of a, getModelFamily m = family]"

definition family_values :: "string \<Rightarrow> account_limits \<Rightarrow> real list" where
  "family_values family a = map null_as_zero (family_quotas family a)"

definition account_gauge :: "string \<Rightarrow> account_limits \<Rightarrow> real" where
  "account_gauge family a =
     sum_list (family_values family a) / real (length (family_values family a))"

definition contributing :: "string \<Rightarrow> account_limits list \<Rightarrow> account_limits list" where
  "contributing family accs = filter (\<lambda>a. usable a \<and> family_values family a \<noteq> []) accs"

definition familyGauge :: "string \<Rightarrow> account_limits list \<Rightarrow> real" where
  "familyGauge family accs =
     (if contributing family accs = [] then 0
      else sum_list (map (account_gauge family) (contributing family accs)) /
           real (length (contributing family accs)))"

text \<open>The candidates of the next global reset: the quotas of the usable accounts that have a
  reset time later than \<open>now\<close> and a fraction that is 0 or null, in the order of the
  snapshot.\<close>

definition exhausted :: "QuotaInfo \<Rightarrow> bool" where
  "exhausted l = (remainingFraction l = None \<or> remainingFraction l = Some 0)"

definition quota_resets :: "string \<times> QuotaInfo \<Rightarrow> reset_entry list" where
  "quota_resets q =
     (case q of (m, l) \<Rightarrow>
        (case resetTime l of
           None \<Rightarrow> []
         | Some rt \<Rightarrow> if exhausted l then [\<lparr>time = rt, model = m\<rparr>] else []))"

definition reset_candidates :: "int \<Rightarrow> account_limits list \<Rightarrow> reset_entry list" where
  "reset_candidates now accs =
     [r. a \<leftarrow> accs, usable a, q \<leftarrow> quotas_of a, r \<leftarrow> quota_resets q, now < time r]"

text \<open>\<open>res\<close> is the first candidate of the smallest reset time: every candidate before it
  resets strictly later, every candidate after it resets no sooner; no result exactly when
  there is no candidate.\<close>

definition first_least :: "reset_entry list \<Rightarrow> reset_entry option \<Rightarrow> bool" where
  "first_least cands res =
     (case res of
        None \<Rightarrow> cands = []
      | Some r \<Rightarrow> (\<exists>pre post. cands = pre @ r # post \<and>
                     (\<forall>c \<in> set pre. time r < time c) \<and> (\<forall>c \<in> set post. time r \<le> time c)))"

subsection \<open>Auxiliary notions of the proofs\<close>

definition totals_of :: "real list \<Rightarrow> totals option" where
  "totals_of cs = (if cs = [] then None else Some \<lparr>sum_t = sum_list cs, count_t = length cs\<rparr>)"

definition track_all :: "string \<Rightarrow> per_account js_object \<Rightarrow> QuotaInfo list \<Rightarrow> per_account js_object" where
  "track_all em pa qs = foldl (\<lambda>pa l. track em (null_as_zero l) (resetTime l) pa) pa qs"

definition sums_counts :: "per_account js_object \<Rightarrow> (real \<times> nat) list" where
  "sums_counts pa = map (\<lambda>(k, e). (sum_a e, count_a e)) pa"

text \<open>The number of suspended refreshes agrees with the loading flag.\<close>

definition in_flight_inv :: "dashboard \<Rightarrow> bool" where
  "in_flight_inv d = (in_flight d = (if isLoading (state d) then 1 else 0))"

subsection \<open>Example inputs\<close>

text \<open>Three accounts of the terminal report: two deliver quotas, the third fails.\<close>

definition report_example :: "fetch_result list" where
  "report_example =
     [FetchOk [(''m1'', \<lparr>remainingFraction = Some (8 / 10), resetTime = None\<rparr>)],
      FetchOk [(''m1'', \<lparr>remainingFraction = Some (4 / 10), resetTime = None\<rparr>),
               (''m2'', \<lparr>remainingFraction = None, resetTime = None\<rparr>)],
      FetchError ''token refresh failed'']"

text \<open>One account with two models of the claude family, one at a half and one unknown.\<close>

definition half_and_null :: account_limits where
  "half_and_null =
     \<lparr>email = ''ann@example.com'', status = ''ok'',
      limits = Some [(''claude-m1'', Some \<lparr>remainingFraction = Some (1 / 2), resetTime = None\<rparr>),
                     (''claude-m2'', Some \<lparr>remainingFraction = None, resetTime = None\<rparr>)]\<rparr>"

text \<open>Two usable accounts with exhausted quotas that reset at 1010 and at 1005 (twice), a
  quota that is not exhausted, one whose reset lies in the past, and an invalid account.\<close>

definition resets_example :: "account_limits list" where
  "resets_example =
     [\<lparr>email = ''ann@example.com'', status = ''ok'',
       limits = Some [(''claude-sonnet'', Some \<lparr>remainingFraction = Some 0, resetTime = Some 1010\<rparr>),
                      (''gemini-pro'', Some \<lparr>remainingFraction = Some (3 / 10), resetTime = Some 1001\<rparr>)]\<rparr>,
      \<lparr>email = ''bob@example.com'', status = ''rate-limited'',
       limits = Some [(''gemini-flash'', Some \<lparr>remainingFraction = Some 0, resetTime = Some 1005\<rparr>),
                      (''claude-opus'', Some \<lparr>remainingFraction = Some 0, resetTime = Some 1005\<rparr>),
                      (''gemini-pro'', Some \<lparr>remainingFraction = Some 0, resetTime = Some 900\<rparr>)]\<rparr>,
      \<lparr>email = ''eve@example.com'', status = ''invalid'',
       limits = Some [(''claude-sonnet'', Some \<lparr>remainingFraction = Some 0, resetTime = Some 1002\<rparr>)]\<rparr>]"

definition page_example :: elements where
  "page_example =
     \<lparr>serverStatus_text = ''-'', serverStatus_class = ''status-badge'', errorMessage_text = [],
      errorBanner_hidden = True, manualRefreshBtn_loading = False,
      manualRefreshBtn_disabled = False\<rparr>"

definition limits_example :: limits_snapshot where
  "limits_example = \<lparr>models = [''claude-m1'', ''claude-m2''], accounts = [half_and_null]\<rparr>"

definition health_example :: health_snapshot where
  "health_example =
     \<lparr>latencyMs = 12, count_total = 1, count_available = 1, count_rateLimited = 0,
      count_invalid = 0\<rparr>"

section \<open>Formatting\<close>

subsection \<open>Durations\<close>

lemma smod_nonneg: "0 \<le> a \<Longrightarrow> 0 < b \<Longrightarrow> (a::int) smod b = a mod b"
  by (cases "a = 0") (simp_all add: smod_int_alt_def)

lemma div_pos_iff_le: "0 < b \<Longrightarrow> (0 < (a::int) div b) = (b \<le> a)"
  using pos_imp_zdiv_pos_iff by blast

lemma duration_units:
  fixes ms :: int
  shows "ms div 1000 div 60 = ms div 60000"
    and "ms div 60000 div 60 = ms div 3600000"
    and "ms div 3600000 div 24 = ms div 86400000"
  by (simp_all add: zdiv_zmult2_eq [symmetric])

lemma formatDuration_units:
  "formatDuration ms =
     (if ms \<le> 0 then ''now''
      else if 86400000 \<le> ms then
        showInt (ms div 86400000) @ ''d '' @ showInt (ms div 3600000 mod 24) @ ''h''
      else if 3600000 \<le> ms then
        showInt (ms div 3600000) @ ''h '' @ showInt (ms div 60000 mod 60) @ ''m''
      else if 60000 \<le> ms then
        showInt (ms div 60000) @ ''m '' @ showInt (ms div 1000 mod 60) @ ''s''
      else showInt (ms div 1000) @ ''s'')"
proof (cases "ms \<le> 0")
  case True
  then show ?thesis by (simp add: formatDuration_def)
next
  case False
  have nn: "0 \<le> ms div 1000" "0 \<le> ms div 60000" "0 \<le> ms div 3600000"
    using False by (simp_all add: pos_imp_zdiv_nonneg_iff)
  have pos: "(0 < ms div 86400000) = (86400000 \<le> ms)"
    "(0 < ms div 3600000) = (3600000 \<le> ms)"
    "(0 < ms div 60000) = (60000 \<le> ms)"
    by (simp_all add: div_pos_iff_le)
  show ?thesis
    unfolding formatDuration_def Let_def duration_units pos
    using False nn by (simp add: smod_nonneg)
qed

text \<open>
  \<^bold>\<open>C7.\<close> For every integer number of milliseconds, \<open>formatDuration\<close> returns \<open>now\<close> when the
  number is at most 0, and otherwise the breakdown by the largest unit that applies: days and
  hours from one day on, else hours and minutes from one hour on, else minutes and seconds from
  one minute on, else seconds. In particular 0 and -500 give \<open>now\<close>, 90000 gives \<open>1m 30s\<close> and
  3900000 gives \<open>1h 5m\<close>.
\<close>

theorem formatDuration_breakdown:
  "formatDuration ms =
     (if ms \<le> 0 then ''now''
      else if 86400000 \<le> ms then
        showInt (ms div 86400000) @ ''d '' @ showInt (ms div 3600000 mod 24) @ ''h''
      else if 3600000 \<le> ms then
        showInt (ms div 3600000) @ ''h '' @ showInt (ms div 60000 mod 60) @ ''m''
      else if 60000 \<le> ms then
        showInt (ms div 60000) @ ''m '' @ showInt (ms div 1000 mod 60) @ ''s''
      else showInt (ms div 1000) @ ''s'') \<and>
   formatDuration 0 = ''now'' \<and>
   formatDuration (- 500) = ''now'' \<and>
   formatDuration 90000 = ''1m 30s'' \<and>
   formatDuration 3900000 = ''1h 5m''"
proof -
  have "formatDuration 0 = ''now''" "formatDuration (- 500) = ''now''"
    by (simp_all add: formatDuration_def)
  moreover have "formatDuration 90000 = ''1m 30s''"
    by code_simp
  moreover have "formatDuration 3900000 = ''1h 5m''"
    by code_simp
  ultimately show ?thesis
    using formatDuration_units [of ms] by simp
qed

theorem formatDuration_breakdown_witness:
  "formatDuration 93784000 = ''1d 2h'' \<and> formatDuration 999 = ''0s''"
proof -
  have "showInt (93784000 div 86400000) @ ''d '' @ showInt (93784000 div 3600000 mod 24) @ ''h''
      = ''1d 2h''"
    by code_simp
  moreover have "showInt (999 div 1000) @ ''s'' = ''0s''"
    by code_simp
  ultimately show ?thesis
    using formatDuration_breakdown [of 93784000] formatDuration_breakdown [of 999] by simp
qed

subsection \<open>Masked emails\<close>

lemma split_on_nonempty: "split_on sep s \<noteq> []"
  by (induction s) (auto split: list.splits)

lemma length_split_on: "length (split_on sep s) = Suc (count_list s sep)"
  by (induction s) (auto split: list.splits simp: split_on_nonempty)

lemma split_on_no_sep: "sep \<notin> set s \<Longrightarrow> split_on sep s = [s]"
  by (induction s) auto

lemma split_on_one_sep:
  "sep \<notin> set l \<Longrightarrow> sep \<notin> set d \<Longrightarrow> split_on sep (l @ sep # d) = [l, d]"
  by (induction l) (auto simp: split_on_no_sep)

text \<open>
  \<^bold>\<open>C10.\<close> \<open>maskEmail\<close> returns a string for every input: the empty string for an absent or
  empty email; the input itself when it does not split at \<open>@\<close> into exactly two parts (the
  number of \<open>@\<close> is not one); and for a local part and a domain joined by the one \<open>@\<close>, the
  first 4 characters of the local part when it is longer than 4 characters, else its first 2
  characters, then \<open>***\<close>, \<open>@\<close> and the whole domain.
\<close>

theorem maskEmail_total:
  "maskEmail None = [] \<and> maskEmail (Some []) = [] \<and>
   (count_list e CHR ''@'' \<noteq> 1 \<longrightarrow> maskEmail (Some e) = e) \<and>
   (CHR ''@'' \<notin> set l \<and> CHR ''@'' \<notin> set d \<longrightarrow>
      maskEmail (Some (l @ ''@'' @ d)) =
        (if length l > 4 then take 4 l else take 2 l) @ ''***'' @ ''@'' @ d)"
  by (auto simp: maskEmail_def length_split_on split_on_one_sep Let_def)

theorem maskEmail_total_witness:
  "maskEmail (Some ''a@b@c'') = ''a@b@c'' \<and>
   maskEmail (Some ''alice.smith@example.com'') = ''alic***@example.com'' \<and>
   maskEmail (Some ''bob@example.com'') = ''bo***@example.com''"
  using maskEmail_total [of "''a@b@c''" "''alice.smith''" "''example.com''"]
    maskEmail_total [of "''x''" "''bob''" "''example.com''"]
  by simp

subsection \<open>Severity colours of the terminal report\<close>

lemma Math_round_ge: "(k \<le> Math_round x) = (of_int k - 1 / 2 \<le> x)"
  unfolding Math_round_def by (simp add: le_floor_iff) linarith

text \<open>
  \<^bold>\<open>C6\<close> (as amended). \<open>formatPercent\<close> classifies by the rounded percentage: null yields a
  grey \<open>N/A\<close>; a fraction whose percentage rounds to 50 or more, that is a fraction of at least
  0.495, yields the green (high) tier; one that rounds to 20 or more, that is a fraction of at
  least 0.195 and below 0.495, yields the yellow (mid) tier; every other fraction yields the
  red (low) tier.
\<close>

theorem formatPercent_tiers:
  "formatPercent None = ansi ''90'' @ ''N/A'' @ ansi ''0'' \<and>
   formatPercent (Some f) =
     (if 495 / 1000 \<le> f
      then ansi ''32'' @ showInt (Math_round (f * 100)) @ ''%'' @ ansi ''0''
      else if 195 / 1000 \<le> f
      then ansi ''33'' @ showInt (Math_round (f * 100)) @ ''%'' @ ansi ''0''
      else ansi ''31'' @ showInt (Math_round (f * 100)) @ ''%'' @ ansi ''0'')"
  by (simp add: formatPercent_def Let_def Math_round_ge)

text \<open>The fraction 0.499 lies in the interval from 0.20 to 0.50 and is reported in green, as
  50 percent, not in yellow.\<close>

theorem formatPercent_tiers_counterexample:
  "(20 / 100 \<le> (499 / 1000 :: real) \<and> (499 / 1000 :: real) < 50 / 100) \<and>
   formatPercent (Some (499 / 1000)) = ansi ''32'' @ ''50%'' @ ansi ''0'' \<and>
   formatPercent (Some (499 / 1000)) \<noteq> ansi ''33'' @ ''50%'' @ ansi ''0''"
  by (simp add: formatPercent_def Math_round_def showInt_def showNat.simps digit_char_def ansi_def)

section \<open>Averages of the terminal report\<close>

lemma accumulate_entry_lookup:
  assumes "map_of mt k = totals_of cs"
  shows "map_of (accumulate_entry mt e) k = totals_of (cs @ quota_contributions k [e])"
proof -
  obtain m info where e: "e = (m, info)" by (cases e)
  show ?thesis
  proof (cases "remainingFraction info")
    case None
    with assms show ?thesis
      by (simp add: e accumulate_entry_def quota_contributions_def map_filter_simps)
  next
    case (Some f)
    show ?thesis
    proof (cases "m = k")
      case True
      with assms Some show ?thesis
        by (simp add: e accumulate_entry_def quota_contributions_def map_filter_simps Let_def
            update_conv' totals_of_def)
    next
      case False
      with assms Some show ?thesis
        by (simp add: e accumulate_entry_def quota_contributions_def map_filter_simps Let_def
            update_conv')
    qed
  qed
qed

lemma quota_contributions_Cons:
  "quota_contributions k (e # es) = quota_contributions k [e] @ quota_contributions k es"
  by (cases e) (simp add: quota_contributions_def map_filter_simps split: option.splits)

lemma accumulate_entries_lookup:
  "map_of mt k = totals_of cs \<Longrightarrow>
   map_of (foldl accumulate_entry mt quotas) k = totals_of (cs @ quota_contributions k quotas)"
proof (induction quotas arbitrary: mt cs)
  case Nil
  then show ?case by (simp add: quota_contributions_def map_filter_simps)
next
  case (Cons e es)
  from Cons.IH [OF accumulate_entry_lookup [OF Cons.prems, of e]]
  show ?case by (simp add: quota_contributions_Cons [of k e es])
qed

lemma accumulate_accounts_lookup:
  "map_of mt k = totals_of cs \<Longrightarrow>
   map_of (foldl accumulate_account mt results) k = totals_of (cs @ contributions k results)"
proof (induction results arbitrary: mt cs)
  case Nil
  then show ?case by (simp add: contributions_def)
next
  case (Cons r rs)
  show ?case
  proof (cases r)
    case (FetchOk quotas)
    from Cons.IH [OF accumulate_entries_lookup [OF Cons.prems, of quotas]]
    show ?thesis by (simp add: FetchOk accumulate_account_def contributions_def)
  next
    case (FetchError msg)
    from Cons.IH [OF Cons.prems]
    show ?thesis by (simp add: FetchError accumulate_account_def contributions_def)
  qed
qed

lemma modelTotals_lookup: "map_of (modelTotals_of results) k = totals_of (contributions k results)"
  using accumulate_accounts_lookup [of "[]" k "[]" results]
  by (simp add: modelTotals_of_def totals_of_def)

lemma modelAverages_lookup:
  "map_of (modelAverages results) k = map_option average_of (map_of (modelTotals_of results) k)"
  by (simp add: modelAverages_def map_of_map)

lemma set_update_subset: "set (AList.update k v al) \<subseteq> insert (k, v) (set al)"
  by (induction al) auto

lemma accumulate_entry_counts:
  assumes "\<forall>e \<in> set mt. 0 < count_t (snd e)"
  shows "\<forall>e \<in> set (accumulate_entry mt x). 0 < count_t (snd e)"
proof -
  obtain m info where x: "x = (m, info)" by (cases x)
  show ?thesis
  proof (cases "remainingFraction info")
    case None
    with assms show ?thesis by (simp add: x accumulate_entry_def)
  next
    case (Some f)
    with assms set_update_subset show ?thesis
      unfolding x accumulate_entry_def Let_def by (simp split: option.splits) fastforce
  qed
qed

lemma accumulate_entries_counts:
  "\<forall>e \<in> set mt. 0 < count_t (snd e) \<Longrightarrow>
   \<forall>e \<in> set (foldl accumulate_entry mt quotas). 0 < count_t (snd e)"
proof (induction quotas arbitrary: mt)
  case Nil
  then show ?case by simp
next
  case (Cons x xs)
  from Cons.IH [OF accumulate_entry_counts [OF Cons.prems, of x]]
  show ?case by simp
qed

lemma accumulate_accounts_counts:
  "\<forall>e \<in> set mt. 0 < count_t (snd e) \<Longrightarrow>
   \<forall>e \<in> set (foldl accumulate_account mt results). 0 < count_t (snd e)"
proof (induction results arbitrary: mt)
  case Nil
  then show ?case by simp
next
  case (Cons r rs)
  have "\<forall>e \<in> set (accumulate_account mt r). 0 < count_t (snd e)"
    using Cons.prems accumulate_entries_counts [of mt]
    by (cases r) (simp_all add: accumulate_account_def)
  from Cons.IH [OF this] show ?case by simp
qed

text \<open>What the loops of \<open>main\<close> compute: a model with non-null fractions among the fetched
  accounts is mapped to their arithmetic mean, nulls being left out of the sum and of the
  count, and every count that is divided by is positive.\<close>

lemma modelAverages_of_contributions:
  "contributions modelId results \<noteq> [] \<Longrightarrow>
     map_of (modelAverages results) modelId =
       Some (Some (sum_list (contributions modelId results) /
                   real (length (contributions modelId results))))"
  by (simp add: modelAverages_lookup modelTotals_lookup totals_of_def average_of_def)

lemma modelTotals_counts_positive: "\<forall>e \<in> set (modelTotals_of results). 0 < count_t (snd e)"
  unfolding modelTotals_of_def by (rule accumulate_accounts_counts) simp

text \<open>
  \<^bold>\<open>C1.\<close> \<open>modelAverages\<close> is to map each model id that appears in any account to the mean of
  its non-null fractions, and a model whose contributions are all null to null, the key being
  present. \<open>main\<close> prepares for that value: a count of zero is mapped to null
  (\<open>average_of\<close>), null averages are filtered out of the overall average, and they are printed
  as \<open>N/A\<close>. But the entry of a model is created under the test for a non-null fraction, so in
  the report of three accounts (\<open>{m1: 0.8}\<close>, \<open>{m1: 0.4, m2: null}\<close>, one failing) the model
  \<open>m2\<close>, which the second account offers, has no key at all, while \<open>m1\<close> is mapped to its
  mean 0.6.
\<close>

theorem modelAverages_drops_all_null_model:
  "average_of \<lparr>sum_t = 0, count_t = 0\<rparr> = None \<and>
   contributions ''m1'' report_example = [8 / 10, 4 / 10] \<and>
   contributions ''m2'' report_example = [] \<and>
   modelAverages report_example = [(''m1'', Some (6 / 10))] \<and>
   map_of (modelAverages report_example) ''m1'' = Some (Some (6 / 10)) \<and>
   map_of (modelAverages report_example) ''m2'' = None \<and>
   map_of (modelAverages report_example) ''m2'' \<noteq> Some None"
proof -
  have z: "average_of \<lparr>sum_t = 0, count_t = 0\<rparr> = None"
    by (simp add: average_of_def)
  have c1: "contributions ''m1'' report_example = [8 / 10, 4 / 10]"
    by code_simp
  have c2: "contributions ''m2'' report_example = []"
    by code_simp
  have m: "modelAverages report_example = [(''m1'', Some (6 / 10))]"
    by code_simp
  show ?thesis
    by (simp add: z c1 c2 m)
qed

section \<open>Aggregates of the dashboard\<close>

subsection \<open>Accounts that are skipped\<close>

lemma process_account_skip:
  "(status a \<noteq> ''ok'' \<and> status a \<noteq> ''rate-limited'') \<or> limits a = None \<Longrightarrow>
   process_account acc a = acc"
  by (auto simp: process_account_def)

text \<open>
  \<^bold>\<open>C9.\<close> An account whose status is neither \<open>ok\<close> nor \<open>rate-limited\<close>, or that has no limits
  mapping, contributes nothing: with the account anywhere in the snapshot or without it,
  \<open>Render.globalQuota\<close> computes the same family gauges, the same contributing accounts, the
  same per-family soonest resets and the same next global reset.
\<close>

theorem unusable_account_ignored:
  "(status a \<noteq> ''ok'' \<and> status a \<noteq> ''rate-limited'') \<or> limits a = None \<Longrightarrow>
   globalQuota now (xs @ a # ys) = globalQuota now (xs @ ys)"
  by (simp add: globalQuota_def collect_def process_account_skip)

theorem unusable_account_ignored_witness:
  "globalQuota 1000 resets_example = globalQuota 1000 (butlast resets_example) \<and>
   nextReset (globalQuota 1000 resets_example) = Some \<lparr>time = 1005, model = ''gemini-flash''\<rparr>"
proof -
  have s: "status (last resets_example) \<noteq> ''ok'' \<and> status (last resets_example) \<noteq> ''rate-limited''"
    by (simp add: resets_example_def)
  have l: "resets_example = butlast resets_example @ last resets_example # []"
    by (simp add: resets_example_def)
  have n: "nextReset (globalQuota 1000 resets_example) = Some \<lparr>time = 1005, model = ''gemini-flash''\<rparr>"
    by code_simp
  from unusable_account_ignored [of "last resets_example" 1000 "butlast resets_example" "[]"] s
  have "globalQuota 1000 (butlast resets_example @ last resets_example # []) =
        globalQuota 1000 (butlast resets_example)"
    by simp
  with l n show ?thesis by simp
qed

subsection \<open>The next global reset\<close>

lemma allResets_process_model:
  "allResets (process_model em acc (m, q0)) =
     allResets acc @ (case q0 of None \<Rightarrow> [] | Some l \<Rightarrow> quota_resets (m, l))"
  by (auto simp: process_model_def quota_resets_def exhausted_def Let_def split: option.splits)

lemma allResets_models:
  "allResets (foldl (process_model em) acc ls) =
     allResets acc @ concat (map quota_resets [(m, l). (m, Some l) \<leftarrow> ls])"
proof (induction ls arbitrary: acc)
  case Nil
  then show ?case by simp
next
  case (Cons e ls)
  obtain m q0 where e: "e = (m, q0)" by (cases e)
  show ?case
    by (cases q0) (simp_all add: e Cons.IH allResets_process_model)
qed

lemma allResets_account:
  "allResets (process_account acc a) =
     allResets acc @ (if usable a then concat (map quota_resets (quotas_of a)) else [])"
  by (auto simp: process_account_def usable_def quotas_of_def allResets_models split: option.splits)

lemma allResets_accounts:
  "allResets (foldl process_account acc accs) =
     allResets acc @
     concat (map (\<lambda>a. if usable a then concat (map quota_resets (quotas_of a)) else []) accs)"
  by (induction accs arbitrary: acc) (simp_all add: allResets_account)

lemma filter_concat_map: "filter P (concat (map f xs)) = concat (map (\<lambda>x. filter P (f x)) xs)"
  by (induction xs) simp_all

lemma concat_map_single: "concat (map (\<lambda>r. if P r then [r] else []) xs) = filter P xs"
  by (induction xs) simp_all

lemma candidates_filter:
  "reset_candidates now accs = filter (\<lambda>r. now < time r) (allResets (collect accs))"
  unfolding reset_candidates_def collect_def allResets_accounts
  by (induction accs) (simp_all add: filter_concat_map concat_map_single)

lemma next_step_filter:
  "foldl (next_step now) nr rs =
     foldl (\<lambda>nr r. if (case nr of None \<Rightarrow> True | Some n \<Rightarrow> time r < time n) then Some r else nr) nr
       (filter (\<lambda>r. now < time r) rs)"
  by (induction rs arbitrary: nr) (simp_all add: next_step_def)

lemma first_least_SomeI:
  "cands = pre @ r # post \<Longrightarrow> \<forall>c \<in> set pre. time r < time c \<Longrightarrow>
   \<forall>c \<in> set post. time r \<le> time c \<Longrightarrow> first_least cands (Some r)"
  unfolding first_least_def by auto

lemma pick_first_least:
  "first_least cs
     (foldl (\<lambda>nr r. if (case nr of None \<Rightarrow> True | Some n \<Rightarrow> time r < time n) then Some r else nr)
        None cs)"
proof (induction cs rule: rev_induct)
  case Nil
  then show ?case by (simp add: first_least_def)
next
  case (snoc x xs)
  let ?f = "\<lambda>nr r. if (case nr of None \<Rightarrow> True | Some n \<Rightarrow> time r < time n) then Some r else nr"
  show ?case
  proof (cases "foldl ?f None xs")
    case None
    with snoc have "xs = []" by (simp add: first_least_def)
    with None show ?thesis by (simp add: first_least_SomeI [of _ "[]" x "[]"])
  next
    case (Some n)
    with snoc obtain pre post where xs: "xs = pre @ n # post"
      and pre: "\<forall>c \<in> set pre. time n < time c" and post: "\<forall>c \<in> set post. time n \<le> time c"
      by (auto simp: first_least_def)
    show ?thesis
    proof (cases "time x < time n")
      case True
      have "\<forall>c \<in> set xs. time x < time c"
        using True pre post xs by auto
      then show ?thesis
        using Some True by (simp add: first_least_SomeI [of _ xs x "[]"])
    next
      case False
      have "xs @ [x] = pre @ n # (post @ [x])" using xs by simp
      moreover have "\<forall>c \<in> set (post @ [x]). time n \<le> time c" using post False by auto
      ultimately show ?thesis
        using Some False pre by (simp add: first_least_SomeI [of _ pre n "post @ [x]"])
    qed
  qed
qed

text \<open>
  \<^bold>\<open>C2\<close> (as amended). For every snapshot of accounts, the candidates of \<open>nextGlobalReset\<close> are
  the quotas of the accounts with status \<open>ok\<close> or \<open>rate-limited\<close> whose \<open>resetTime\<close> is set and
  strictly later than the current instant and whose \<open>remainingFraction\<close> is 0 or null (a null
  fraction counts as exhausted). The result is the candidate with the smallest \<open>resetTime\<close>,
  the earliest in the order of the snapshot (accounts, then models) among equals, and it is
  null exactly when there is no candidate.
\<close>

theorem nextReset_first_least:
  "first_least (reset_candidates now accs) (nextReset (globalQuota now accs))"
  by (simp add: globalQuota_def Let_def find_next_reset_def next_step_filter candidates_filter
      pick_first_least)

theorem nextReset_first_least_witness:
  "first_least (reset_candidates 1000 resets_example) (nextReset (globalQuota 1000 resets_example)) \<and>
   reset_candidates 1000 resets_example =
     [\<lparr>time = 1010, model = ''claude-sonnet''\<rparr>, \<lparr>time = 1005, model = ''gemini-flash''\<rparr>,
      \<lparr>time = 1005, model = ''claude-opus''\<rparr>] \<and>
   nextReset (globalQuota 1000 resets_example) = Some \<lparr>time = 1005, model = ''gemini-flash''\<rparr>"
proof -
  have c: "reset_candidates 1000 resets_example =
     [\<lparr>time = 1010, model = ''claude-sonnet''\<rparr>, \<lparr>time = 1005, model = ''gemini-flash''\<rparr>,
      \<lparr>time = 1005, model = ''claude-opus''\<rparr>]"
    by code_simp
  have n: "nextReset (globalQuota 1000 resets_example) = Some \<lparr>time = 1005, model = ''gemini-flash''\<rparr>"
    by code_simp
  show ?thesis
    using nextReset_first_least [of 1000 resets_example] c n by simp
qed

text \<open>A quota with a null fraction and a reset in the future is returned as the next global
  reset, although its fraction is not 0.\<close>

theorem nextReset_first_least_counterexample:
  "nextReset (globalQuota 1000
     [\<lparr>email = ''ann@example.com'', status = ''ok'',
       limits = Some [(''claude-sonnet'',
                       Some \<lparr>remainingFraction = None, resetTime = Some 2000\<rparr>)]\<rparr>]) =
   Some \<lparr>time = 2000, model = ''claude-sonnet''\<rparr>"
  by code_simp

subsection \<open>The family gauges\<close>

lemma update_fresh: "k \<notin> fst ` set al \<Longrightarrow> AList.update k v al = al @ [(k, v)]"
  by (induction al) auto

lemma update_at_end: "k \<notin> fst ` set pre \<Longrightarrow> AList.update k v (pre @ [(k, e)]) = pre @ [(k, v)]"
  by (induction pre) auto

lemma map_of_fresh: "k \<notin> fst ` set al \<Longrightarrow> map_of al k = None"
  by (simp add: map_of_eq_None_iff)

lemma track_at_end:
  "em \<notin> fst ` set pre \<Longrightarrow>
   \<exists>e'. track em fr rt (pre @ [(em, e)]) = pre @ [(em, e')] \<and>
        sum_a e' = sum_a e + fr \<and> count_a e' = count_a e + 1"
  by (auto simp: track_def Let_def update_at_end map_of_fresh split: option.splits)

lemma track_fresh:
  "em \<notin> fst ` set pa \<Longrightarrow>
   \<exists>e'. track em fr rt pa = pa @ [(em, e')] \<and> sum_a e' = fr \<and> count_a e' = 1"
  by (auto simp: track_def Let_def update_fresh map_of_fresh split: option.splits)

lemma track_all_Nil: "track_all em pa [] = pa"
  by (simp add: track_all_def)

lemma track_all_at_end:
  "em \<notin> fst ` set pre \<Longrightarrow>
   \<exists>e'. track_all em (pre @ [(em, e)]) qs = pre @ [(em, e')] \<and>
        sum_a e' = sum_a e + sum_list (map null_as_zero qs) \<and>
        count_a e' = count_a e + length qs"
proof (induction qs arbitrary: e)
  case Nil
  then show ?case by (simp add: track_all_def)
next
  case (Cons q qs)
  from track_at_end [OF Cons.prems, of "null_as_zero q" "resetTime q" e]
  obtain e1 where e1: "track em (null_as_zero q) (resetTime q) (pre @ [(em, e)]) = pre @ [(em, e1)]"
    "sum_a e1 = sum_a e + null_as_zero q" "count_a e1 = count_a e + 1"
    by blast
  from Cons.IH [OF Cons.prems, of e1]
  obtain e' where "track_all em (pre @ [(em, e1)]) qs = pre @ [(em, e')]"
    "sum_a e' = sum_a e1 + sum_list (map null_as_zero qs)" "count_a e' = count_a e1 + length qs"
    by blast
  with e1 show ?case by (simp add: track_all_def)
qed

lemma track_all_fresh:
  assumes "em \<notin> fst ` set pa" "qs \<noteq> []"
  shows "\<exists>e'. track_all em pa qs = pa @ [(em, e')] \<and>
        sum_a e' = sum_list (map null_as_zero qs) \<and> count_a e' = length qs"
proof -
  from assms(2) obtain q qs' where qs: "qs = q # qs'" by (cases qs) auto
  from track_fresh [OF assms(1), of "null_as_zero q" "resetTime q"]
  obtain e1 where e1: "track em (null_as_zero q) (resetTime q) pa = pa @ [(em, e1)]"
    "sum_a e1 = null_as_zero q" "count_a e1 = 1"
    by blast
  from track_all_at_end [OF assms(1), of e1 qs']
  obtain e' where "track_all em (pa @ [(em, e1)]) qs' = pa @ [(em, e')]"
    "sum_a e' = sum_a e1 + sum_list (map null_as_zero qs')" "count_a e' = count_a e1 + length qs'"
    by blast
  with e1 show ?thesis by (simp add: track_all_def qs)
qed

lemma claude_process_model:
  "claudePerAccount (process_model em acc (m, q0)) =
     (case q0 of
        None \<Rightarrow> claudePerAccount acc
      | Some l \<Rightarrow> if getModelFamily m = ''claude''
                  then track em (null_as_zero l) (resetTime l) (claudePerAccount acc)
                  else claudePerAccount acc)"
  by (simp add: process_model_def null_as_zero_def Let_def split: option.splits)

lemma gemini_process_model:
  "geminiPerAccount (process_model em acc (m, q0)) =
     (case q0 of
        None \<Rightarrow> geminiPerAccount acc
      | Some l \<Rightarrow> if getModelFamily m = ''gemini''
                  then track em (null_as_zero l) (resetTime l) (geminiPerAccount acc)
                  else geminiPerAccount acc)"
  by (simp add: process_model_def null_as_zero_def Let_def split: option.splits)

lemma claude_models:
  "claudePerAccount (foldl (process_model em) acc ls) =
     track_all em (claudePerAccount acc)
       [l. (m, l) \<leftarrow> [(m, l). (m, Some l) \<leftarrow> ls], getModelFamily m = ''claude'']"
proof (induction ls arbitrary: acc)
  case Nil
  then show ?case by (simp add: track_all_def)
next
  case (Cons x ls)
  obtain m q0 where x: "x = (m, q0)" by (cases x)
  show ?case
    by (cases q0) (simp_all add: x Cons.IH claude_process_model track_all_def)
qed

lemma gemini_models:
  "geminiPerAccount (foldl (process_model em) acc ls) =
     track_all em (geminiPerAccount acc)
       [l. (m, l) \<leftarrow> [(m, l). (m, Some l) \<leftarrow> ls], getModelFamily m = ''gemini'']"
proof (induction ls arbitrary: acc)
  case Nil
  then show ?case by (simp add: track_all_def)
next
  case (Cons x ls)
  obtain m q0 where x: "x = (m, q0)" by (cases x)
  show ?case
    by (cases q0) (simp_all add: x Cons.IH gemini_process_model track_all_def)
qed

lemma claude_account:
  "claudePerAccount (process_account acc a) =
     (if usable a then track_all (email a) (claudePerAccount acc) (family_quotas ''claude'' a)
      else claudePerAccount acc)"
  by (auto simp: process_account_def usable_def family_quotas_def quotas_of_def claude_models
      track_all_def split: option.splits)

lemma gemini_account:
  "geminiPerAccount (process_account acc a) =
     (if usable a then track_all (email a) (geminiPerAccount acc) (family_quotas ''gemini'' a)
      else geminiPerAccount acc)"
  by (auto simp: process_account_def usable_def family_quotas_def quotas_of_def gemini_models
      track_all_def split: option.splits)

text \<open>With distinct emails, the entries of a family are the contributing accounts in their
  order, each with the sum and the number of its values.\<close>

lemma per_family_rows:
  assumes step: "\<And>acc a. P (process_account acc a) =
      (if usable a then track_all (email a) (P acc) (family_quotas F a) else P acc)"
    and init: "P start = []"
    and dist: "distinct (map email accs)"
  shows "map fst (P (foldl process_account start accs)) = map email (contributing F accs) \<and>
         sums_counts (P (foldl process_account start accs)) =
           map (\<lambda>a. (sum_list (family_values F a), length (family_values F a)))
             (contributing F accs)"
  using dist
proof (induction accs rule: rev_induct)
  case Nil
  then show ?case by (simp add: init contributing_def sums_counts_def)
next
  case (snoc a xs)
  let ?pa = "P (foldl process_account start xs)"
  from snoc.prems have dxs: "distinct (map email xs)" and fresh: "email a \<notin> email ` set xs"
    by auto
  note IH = snoc.IH [OF dxs]
  have "fst ` set ?pa = set (map fst ?pa)" by simp
  also have "\<dots> \<subseteq> email ` set xs" using IH by (auto simp: contributing_def)
  finally have nk: "email a \<notin> fst ` set ?pa" using fresh by blast
  show ?case
  proof (cases "usable a \<and> family_values F a \<noteq> []")
    case True
    then have ne: "family_quotas F a \<noteq> []" by (auto simp: family_values_def)
    from track_all_fresh [OF nk ne]
    obtain e' where e': "track_all (email a) ?pa (family_quotas F a) = ?pa @ [(email a, e')]"
      "sum_a e' = sum_list (map null_as_zero (family_quotas F a))"
      "count_a e' = length (family_quotas F a)"
      by blast
    with True IH show ?thesis
      by (simp add: step contributing_def sums_counts_def family_values_def)
  next
    case False
    then have "P (process_account (foldl process_account start xs) a) = ?pa"
      by (auto simp: step family_values_def track_all_Nil)
    with False IH show ?thesis
      by (simp add: contributing_def)
  qed
qed

lemma foldl_family_step:
  "fst (foldl family_step (t, s) pa) = t + sum_list (map (\<lambda>(x, c). x / real c) (sums_counts pa))"
proof (induction pa arbitrary: t s)
  case Nil
  then show ?case by (simp add: sums_counts_def)
next
  case (Cons x pa)
  obtain k e where x: "x = (k, e)" by (cases x)
  obtain t' s' where st: "family_step (t, s) (k, e) = (t', s')"
    by (cases "family_step (t, s) (k, e)")
  then have t': "t' = t + sum_a e / real (count_a e)"
    by (simp add: family_step_def Let_def)
  show ?case
    using Cons.IH [of t' s'] by (simp add: x st t' sums_counts_def)
qed

lemma fst_family_average:
  "fst (family_average pa) =
     (if pa = [] then 0
      else sum_list (map (\<lambda>(x, c). x / real c) (sums_counts pa)) / real (length pa))"
proof (cases "pa = []")
  case True
  then show ?thesis by (simp add: family_average_def)
next
  case False
  obtain t s where ts: "foldl family_step (0, None) pa = (t, s)"
    by (cases "foldl family_step (0, None) pa")
  with foldl_family_step [of 0 None pa]
  have "t = sum_list (map (\<lambda>(x, c). x / real c) (sums_counts pa))" by simp
  with False ts show ?thesis by (simp add: family_average_def)
qed

lemma gauge_of_rows:
  assumes keys: "map fst pa = map email (contributing F accs)"
    and rows: "sums_counts pa =
      map (\<lambda>a. (sum_list (family_values F a), length (family_values F a))) (contributing F accs)"
  shows "fst (family_average pa) = familyGauge F accs"
proof -
  have len: "length pa = length (contributing F accs)"
    using keys by (metis length_map)
  have "sum_list (map (\<lambda>(x, c). x / real c) (sums_counts pa)) =
        sum_list (map (account_gauge F) (contributing F accs))"
    by (simp add: rows comp_def account_gauge_def [abs_def])
  then show ?thesis
    using len by (auto simp: fst_family_average familyGauge_def)
qed

lemma claude_gauge:
  assumes "distinct (map email accs)"
  shows "fst (family_average (claudePerAccount (collect accs))) = familyGauge ''claude'' accs"
  using per_family_rows [of claudePerAccount "''claude''", OF claude_account _ assms]
  unfolding collect_def by (intro gauge_of_rows) simp_all

lemma gemini_gauge:
  assumes "distinct (map email accs)"
  shows "fst (family_average (geminiPerAccount (collect accs))) = familyGauge ''gemini'' accs"
  using per_family_rows [of geminiPerAccount "''gemini''", OF gemini_account _ assms]
  unfolding collect_def by (intro gauge_of_rows) simp_all

text \<open>
  \<^bold>\<open>C3.\<close> For every snapshot of accounts (identified by their emails, hence with distinct
  emails) and both families, the gauge that \<open>Render.globalQuota\<close> computes is \<open>familyGauge\<close>: each
  null \<open>remainingFraction\<close> of a model of the family counts as 0, the values of the family's
  models are averaged within an account to one number for the account, and these numbers are
  averaged, unweighted, over the accounts that have models of the family. In particular the
  account with the family models \<open>{m1: 0.5, m2: null}\<close> contributes 0.25.
\<close>

theorem familyGauge_refines:
  "(distinct (map email accs) \<longrightarrow>
      claudeAvgFraction (globalQuota now accs) = familyGauge ''claude'' accs \<and>
      geminiAvgFraction (globalQuota now accs) = familyGauge ''gemini'' accs) \<and>
   family_values ''claude'' half_and_null = [1 / 2, 0] \<and>
   account_gauge ''claude'' half_and_null = 1 / 4 \<and>
   claudeAvgFraction (globalQuota now [half_and_null]) = 1 / 4"
proof -
  have v: "family_values ''claude'' half_and_null = [1 / 2, 0]"
    by code_simp
  have a: "account_gauge ''claude'' half_and_null = 1 / 4"
    by (simp add: account_gauge_def v)
  have u: "usable half_and_null"
    by (simp add: usable_def half_and_null_def)
  have "claudeAvgFraction (globalQuota now [half_and_null]) = familyGauge ''claude'' [half_and_null]"
    by (simp add: globalQuota_def Let_def claude_gauge)
  also have "\<dots> = 1 / 4"
    by (simp add: familyGauge_def contributing_def u v a)
  finally show ?thesis
    by (simp add: v a globalQuota_def Let_def claude_gauge gemini_gauge)
qed

theorem familyGauge_refines_witness:
  "distinct (map email resets_example) \<and>
   claudeAvgFraction (globalQuota 1000 resets_example) = familyGauge ''claude'' resets_example \<and>
   familyGauge ''claude'' resets_example = 0 \<and>
   geminiAvgFraction (globalQuota 1000 resets_example) = familyGauge ''gemini'' resets_example \<and>
   familyGauge ''gemini'' resets_example = 3 / 20"
proof -
  have d: "distinct (map email resets_example)"
    by code_simp
  have c: "familyGauge ''claude'' resets_example = 0"
    by code_simp
  have g: "familyGauge ''gemini'' resets_example = 3 / 20"
    by code_simp
  show ?thesis
    using familyGauge_refines [of resets_example 1000] d c g by simp
qed

section \<open>The refresh controller\<close>

lemma Promise_all_Rejected:
  "(\<exists>msg. Promise_all b p q = Rejected msg) = ((\<exists>e. p = Rejected e) \<or> (\<exists>e. q = Rejected e))"
  by (cases p; cases q) (simp_all add: Promise_all_def)

lemma Promise_all_reason:
  "Promise_all b p q = Rejected msg \<Longrightarrow> p = Rejected msg \<or> q = Rejected msg"
  by (cases p; cases q) (auto simp: Promise_all_def split: if_splits)

lemma Promise_all_Fulfilled:
  "(Promise_all b p q = Fulfilled (x, y)) = (p = Fulfilled x \<and> q = Fulfilled y)"
  by (cases p; cases q) (auto simp: Promise_all_def)

lemma resume_rejected:
  "state (refresh_resume now re (Rejected msg) d) = (state d)\<lparr>isLoading := False\<rparr> \<and>
   errorMessage_text (elements (refresh_resume now re (Rejected msg) d)) =
     ''Failed to connect: '' @ msg \<and>
   \<not> errorBanner_hidden (elements (refresh_resume now re (Rejected msg) d)) \<and>
   serverStatus_text (elements (refresh_resume now re (Rejected msg) d)) = ''Error''"
  by (simp add: refresh_resume_def refresh_catch_def Render_error_def Render_serverStatus_def
      Render_loading_def Let_def)

lemma resume_fulfilled:
  "state (refresh_resume now re (Fulfilled (h, al)) d) =
     (state d)\<lparr>health := Some h, accountLimits := Some al, lastUpdated := Some now,
               isLoading := False\<rparr>"
  by (simp add: refresh_resume_def refresh_catch_def Render_error_def Render_serverStatus_def
      Render_loading_def Let_def split: option.splits)

lemma begin_state:
  "state (refresh_begin d) =
     (if isLoading (state d) then state d else (state d)\<lparr>isLoading := True\<rparr>)"
  by (simp add: refresh_begin_def Render_error_def Render_loading_def Let_def)

subsection \<open>All or nothing\<close>

text \<open>
  \<^bold>\<open>C4.\<close> When the pair of fetches of a refresh settles and either fetch has failed, the
  refresh stores nothing: \<open>health\<close>, \<open>accountLimits\<close> and \<open>lastUpdated\<close> are what they were, and
  the error banner is shown with the message of the failure (of the fetch that failed, behind
  \<open>Failed to connect:\<close>). When both fetches have succeeded, \<open>health\<close> and \<open>accountLimits\<close> are
  replaced together by the two new payloads. A refresh changes \<open>health\<close> or \<open>accountLimits\<close>
  only when both fetches have succeeded, so no partial snapshot is ever stored.
\<close>

theorem refresh_all_or_nothing:
  "((\<exists>e. p = Rejected e) \<or> (\<exists>e. q = Rejected e) \<longrightarrow>
      (\<exists>msg. (p = Rejected msg \<or> q = Rejected msg) \<and>
         Promise_all b p q = Rejected msg \<and>
         health (state (refresh_resume now re (Promise_all b p q) d)) = health (state d) \<and>
         accountLimits (state (refresh_resume now re (Promise_all b p q) d)) =
           accountLimits (state d) \<and>
         lastUpdated (state (refresh_resume now re (Promise_all b p q) d)) =
           lastUpdated (state d) \<and>
         \<not> errorBanner_hidden (elements (refresh_resume now re (Promise_all b p q) d)) \<and>
         errorMessage_text (elements (refresh_resume now re (Promise_all b p q) d)) =
           ''Failed to connect: '' @ msg)) \<and>
   (\<forall>h al. p = Fulfilled h \<and> q = Fulfilled al \<longrightarrow>
      health (state (refresh_resume now re (Promise_all b p q) d)) = Some h \<and>
      accountLimits (state (refresh_resume now re (Promise_all b p q) d)) = Some al \<and>
      lastUpdated (state (refresh_resume now re (Promise_all b p q) d)) = Some now) \<and>
   (health (state (refresh_resume now re (Promise_all b p q) d)) \<noteq> health (state d) \<or>
    accountLimits (state (refresh_resume now re (Promise_all b p q) d)) \<noteq> accountLimits (state d)
      \<longrightarrow> (\<exists>h al. p = Fulfilled h \<and> q = Fulfilled al))"
proof (intro conjI impI allI)
  assume "(\<exists>e. p = Rejected e) \<or> (\<exists>e. q = Rejected e)"
  then obtain msg where r: "Promise_all b p q = Rejected msg"
    using Promise_all_Rejected [of b p q] by blast
  with Promise_all_reason [OF r] resume_rejected [of now re msg d]
  show "\<exists>msg. (p = Rejected msg \<or> q = Rejected msg) \<and>
         Promise_all b p q = Rejected msg \<and>
         health (state (refresh_resume now re (Promise_all b p q) d)) = health (state d) \<and>
         accountLimits (state (refresh_resume now re (Promise_all b p q) d)) =
           accountLimits (state d) \<and>
         lastUpdated (state (refresh_resume now re (Promise_all b p q) d)) =
           lastUpdated (state d) \<and>
         \<not> errorBanner_hidden (elements (refresh_resume now re (Promise_all b p q) d)) \<and>
         errorMessage_text (elements (refresh_resume now re (Promise_all b p q) d)) =
           ''Failed to connect: '' @ msg"
    by (intro exI [of _ msg]) simp
next
  fix h al
  assume "p = Fulfilled h \<and> q = Fulfilled al"
  then have f: "Promise_all b p q = Fulfilled (h, al)" by (simp add: Promise_all_Fulfilled)
  show "health (state (refresh_resume now re (Promise_all b p q) d)) = Some h"
    "accountLimits (state (refresh_resume now re (Promise_all b p q) d)) = Some al"
    "lastUpdated (state (refresh_resume now re (Promise_all b p q) d)) = Some now"
    by (simp_all add: f resume_fulfilled)
next
  assume ch: "health (state (refresh_resume now re (Promise_all b p q) d)) \<noteq> health (state d) \<or>
    accountLimits (state (refresh_resume now re (Promise_all b p q) d)) \<noteq> accountLimits (state d)"
  show "\<exists>h al. p = Fulfilled h \<and> q = Fulfilled al"
  proof (cases "Promise_all b p q")
    case (Fulfilled x)
    then show ?thesis by (cases x) (simp add: Promise_all_Fulfilled)
  next
    case (Rejected msg)
    with ch resume_rejected [of now re msg d] show ?thesis by simp
  qed
qed

text \<open>The first refresh of a page fails on a 500 of the health endpoint while the limits
  endpoint answers; a later one succeeds.\<close>

theorem refresh_all_or_nothing_witness:
  "API_getHealth (HttpResponse 500 (Rejected ''unread'')) = Rejected ''Health check failed: 500'' \<and>
   API_getAccountLimits (HttpResponse 200 (Fulfilled limits_example)) = Fulfilled limits_example \<and>
   health (state (refresh_resume 5000 None
       (Promise_all False (Rejected ''Health check failed: 500'') (Fulfilled limits_example))
       (init 7 8 page_example))) = None \<and>
   accountLimits (state (refresh_resume 5000 None
       (Promise_all False (Rejected ''Health check failed: 500'') (Fulfilled limits_example))
       (init 7 8 page_example))) = None \<and>
   errorMessage_text (elements (refresh_resume 5000 None
       (Promise_all False (Rejected ''Health check failed: 500'') (Fulfilled limits_example))
       (init 7 8 page_example))) = ''Failed to connect: Health check failed: 500'' \<and>
   accountLimits (state (refresh_resume 5000 None
       (Promise_all False (Fulfilled health_example) (Fulfilled limits_example))
       (init 7 8 page_example))) = Some limits_example"
proof -
  have a: "API_getHealth (HttpResponse 500 (Rejected ''unread'')) = Rejected ''Health check failed: 500''"
    by code_simp
  have b: "API_getAccountLimits (HttpResponse 200 (Fulfilled limits_example)) = Fulfilled limits_example"
    by (simp add: API_getAccountLimits_def response_ok_def)
  have i: "health (state (init 7 8 page_example)) = None"
    "accountLimits (state (init 7 8 page_example)) = None"
    by (simp_all add: init_def initial_state_def begin_state startAutoRefresh_def
        stopAutoRefresh_def Let_def split: option.splits)
  show ?thesis
    using refresh_all_or_nothing [of "Rejected ''Health check failed: 500''"
        "Fulfilled limits_example" False 5000 None "init 7 8 page_example"]
      refresh_all_or_nothing [of "Fulfilled health_example"
        "Fulfilled limits_example" False 5000 None "init 7 8 page_example"]
    by (simp add: a b i Promise_all_def)
qed

subsection \<open>The view state is left alone\<close>

text \<open>
  \<^bold>\<open>C8.\<close> A refresh, successful or failed, leaves the set of expanded account emails, the
  family filter and the search query unchanged, in each of its two halves and as a whole; of
  the fields of \<open>state\<close> it writes only \<open>health\<close>, \<open>accountLimits\<close>, \<open>lastUpdated\<close> and
  \<open>isLoading\<close>.
\<close>

theorem refresh_keeps_view_state:
  "expandedAccounts (state (refresh now re results d)) = expandedAccounts (state d) \<and>
   filter_s (state (refresh now re results d)) = filter_s (state d) \<and>
   searchQuery (state (refresh now re results d)) = searchQuery (state d) \<and>
   expandedAccounts (state (refresh_begin d)) = expandedAccounts (state d) \<and>
   filter_s (state (refresh_begin d)) = filter_s (state d) \<and>
   searchQuery (state (refresh_begin d)) = searchQuery (state d) \<and>
   expandedAccounts (state (refresh_resume now re results d)) = expandedAccounts (state d) \<and>
   filter_s (state (refresh_resume now re results d)) = filter_s (state d) \<and>
   searchQuery (state (refresh_resume now re results d)) = searchQuery (state d) \<and>
   (\<exists>h al lu l. state (refresh now re results d) =
      (state d)\<lparr>health := h, accountLimits := al, lastUpdated := lu, isLoading := l\<rparr>)"
proof -
  have r: "\<exists>h al lu. state (refresh_resume now re results d') =
      (state d')\<lparr>health := h, accountLimits := al, lastUpdated := lu, isLoading := False\<rparr>" for d'
  proof (cases results)
    case (Fulfilled x)
    obtain h al where x: "x = (h, al)" by (cases x)
    have "state (refresh_resume now re (Fulfilled (h, al)) d') =
      (state d')\<lparr>health := Some h, accountLimits := Some al, lastUpdated := Some now,
        isLoading := False\<rparr>"
      by (simp add: resume_fulfilled)
    with Fulfilled x show ?thesis by blast
  next
    case (Rejected msg)
    have "(state d')\<lparr>isLoading := False\<rparr> =
      (state d')\<lparr>health := health (state d'), accountLimits := accountLimits (state d'),
        lastUpdated := lastUpdated (state d'), isLoading := False\<rparr>"
      by simp
    with Rejected resume_rejected [of now re msg d'] show ?thesis by metis
  qed
  from r [of d] obtain h1 al1 lu1 where r1: "state (refresh_resume now re results d) =
      (state d)\<lparr>health := h1, accountLimits := al1, lastUpdated := lu1, isLoading := False\<rparr>"
    by blast
  from r [of "refresh_begin d"] obtain h2 al2 lu2 where
    r2: "state (refresh_resume now re results (refresh_begin d)) =
      (state (refresh_begin d))\<lparr>health := h2, accountLimits := al2, lastUpdated := lu2,
        isLoading := False\<rparr>"
    by blast
  have w: "\<exists>h al lu l. state (refresh now re results d) =
      (state d)\<lparr>health := h, accountLimits := al, lastUpdated := lu, isLoading := l\<rparr>"
  proof (cases "isLoading (state d)")
    case True
    have "state d = (state d)\<lparr>health := health (state d), accountLimits := accountLimits (state d),
        lastUpdated := lastUpdated (state d), isLoading := isLoading (state d)\<rparr>"
      by simp
    with True show ?thesis unfolding refresh_def by (simp only: if_True) blast
  next
    case False
    then have "state (refresh now re results d) =
      (state d)\<lparr>health := h2, accountLimits := al2, lastUpdated := lu2, isLoading := False\<rparr>"
      by (simp add: refresh_def r2 begin_state)
    then show ?thesis by blast
  qed
  show ?thesis
    using w by (simp add: refresh_def r1 r2 begin_state)
qed

theorem refresh_keeps_view_state_witness:
  "filter_s (state (refresh 5000 None (Fulfilled (health_example, limits_example))
      (toggleAccount ''ann@example.com''
        (filterByModel ''claude''
          \<lparr>state = initial_state, elements = page_example, in_flight = 0\<rparr>)))) = ''claude'' \<and>
   expandedAccounts (state (refresh 5000 None (Fulfilled (health_example, limits_example))
      (toggleAccount ''ann@example.com''
        (filterByModel ''claude''
          \<lparr>state = initial_state, elements = page_example, in_flight = 0\<rparr>)))) =
     {''ann@example.com''}"
  using refresh_keeps_view_state [of 5000 None "Fulfilled (health_example, limits_example)"
      "toggleAccount ''ann@example.com''
        (filterByModel ''claude'' \<lparr>state = initial_state, elements = page_example, in_flight = 0\<rparr>)"]
  by (simp add: toggleAccount_def filterByModel_def initial_state_def)

subsection \<open>One refresh at a time\<close>

lemma inv_init: "in_flight_inv (init a b page)"
  by (simp add: in_flight_inv_def init_def initial_state_def refresh_begin_def Render_error_def
      Render_loading_def startAutoRefresh_def stopAutoRefresh_def Let_def split: option.splits)

lemma inv_begin: "in_flight_inv d \<Longrightarrow> in_flight_inv (refresh_begin d)"
  by (simp add: in_flight_inv_def refresh_begin_def Render_error_def Render_loading_def Let_def)

lemma inv_Render_error: "in_flight_inv (Render_error m d) = in_flight_inv d"
  by (simp add: in_flight_inv_def Render_error_def split: option.splits)

lemma inv_resume:
  "in_flight_inv d \<Longrightarrow> 0 < in_flight d \<Longrightarrow> in_flight_inv (refresh_resume now re results d)"
  by (auto simp: in_flight_inv_def refresh_resume_def Render_loading_def Let_def split: if_splits)

lemma inv_handlers:
  "in_flight_inv (filterByModel f d) = in_flight_inv d"
  "in_flight_inv (searchAccounts query d) = in_flight_inv d"
  "in_flight_inv (toggleAccount em d) = in_flight_inv d"
  "in_flight_inv (toggleAutoRefresh checked handle d) = in_flight_inv d"
  "in_flight_inv (changeRefreshInterval interval handle d) = in_flight_inv d"
  by (simp_all add: in_flight_inv_def filterByModel_def searchAccounts_def toggleAccount_def
      toggleAutoRefresh_def changeRefreshInterval_def startAutoRefresh_def stopAutoRefresh_def
      Let_def split: option.splits)

lemma inv_fire: "in_flight_inv d \<Longrightarrow> enabled e d \<Longrightarrow> in_flight_inv (fire e d)"
  by (cases e)
    (simp_all add: inv_begin inv_resume retryAfterError_def inv_Render_error inv_handlers)

lemma reachable_inv: "reachable d \<Longrightarrow> in_flight_inv d"
proof (induction rule: reachable.induct)
  case (start refreshHandle countdownHandle page)
  then show ?case by (simp add: inv_init)
next
  case (step d e)
  then show ?case by (simp add: inv_fire)
qed

text \<open>
  \<^bold>\<open>C5.\<close> In every state that the dashboard can reach, at most one refresh is in flight, and
  one is in flight exactly while the loading flag is set. In such a state a further trigger,
  manual or by the timer, changes nothing and starts no fetches, and a retry starts none
  either.
\<close>

theorem one_refresh_in_flight:
  "reachable d \<Longrightarrow>
     in_flight d \<le> 1 \<and>
     (in_flight d = 1) = isLoading (state d) \<and>
     (isLoading (state d) \<longrightarrow>
        fire ManualRefresh d = d \<and> fire TimerRefresh d = d \<and>
        in_flight (fire RetryAfterError d) = in_flight d)"
  using reachable_inv [of d]
  by (auto simp: in_flight_inv_def refresh_begin_def retryAfterError_def Render_error_def
      split: if_splits)

text \<open>After the first refresh of \<open>init\<close> has been issued, a click and a timer tick leave one
  refresh in flight; when it has settled, a click starts the next one.\<close>

theorem one_refresh_in_flight_witness:
  "reachable (fire TimerRefresh (fire ManualRefresh (init 7 8 page_example))) \<and>
   isLoading (state (fire TimerRefresh (fire ManualRefresh (init 7 8 page_example)))) \<and>
   in_flight (fire TimerRefresh (fire ManualRefresh (init 7 8 page_example))) = 1 \<and>
   fire ManualRefresh (fire TimerRefresh (fire ManualRefresh (init 7 8 page_example))) =
     fire TimerRefresh (fire ManualRefresh (init 7 8 page_example)) \<and>
   in_flight (fire ManualRefresh (fire (Settled 5000 None (Rejected ''offline''))
     (init 7 8 page_example))) = 1"
proof -
  let ?d = "fire TimerRefresh (fire ManualRefresh (init 7 8 page_example))"
  have r: "reachable ?d"
    by (intro reachable.step reachable.start) simp_all
  have l: "isLoading (state ?d)"
    by (simp add: init_def initial_state_def begin_state startAutoRefresh_def
        stopAutoRefresh_def Let_def split: option.splits)
  have n: "in_flight (fire ManualRefresh (fire (Settled 5000 None (Rejected ''offline''))
     (init 7 8 page_example))) = 1"
    by code_simp
  show ?thesis
    using one_refresh_in_flight [OF r] r l n by simp
qed

end
